theory Spec2Isabelle
  imports Complex_Main "HOL-Library.Multiset"
begin

section \<open>JavaScript numbers\<close>

text \<open>
  A Number is a finite value, the negative zero, an infinity or NaN; \<open>Fin 0\<close> is the
  positive zero. The arithmetic is that of IEEE 754 doubles: zeros, infinities and NaN
  follow the standard's rules, and the exact result of an operation on finite non-zero
  operands is rounded by \<open>rnd\<close>, the rounding of the machine (to the nearest double, to
  an infinity on overflow, to a zero on underflow). Nothing is assumed of \<open>rnd\<close>: what
  is proved for every \<open>rnd\<close> holds for the doubles, and exact rational arithmetic is the
  instance \<open>rnd = Fin\<close>. A decimal literal of the source is the rounding of its value;
  the integers \<open>0\<close>, \<open>1\<close> and \<open>100\<close> are exact. The numbers the program receives are
  doubles; an input written in decimal stands for the double nearest to it.
\<close>

datatype jsnum = Fin rat | NegZero | PInf | NInf | NaN

definition isZero :: "jsnum \<Rightarrow> bool" where
  "isZero x = (x = Fin 0 \<or> x = NegZero)"

definition isInf :: "jsnum \<Rightarrow> bool" where
  "isInf x = (x = PInf \<or> x = NInf)"

fun signBit :: "jsnum \<Rightarrow> bool" where
  "signBit (Fin r) = (r < 0)"
| "signBit NegZero = True"
| "signBit PInf = False"
| "signBit NInf = True"
| "signBit NaN = False"

fun finValue :: "jsnum \<Rightarrow> rat" where
  "finValue (Fin r) = r"
| "finValue NegZero = 0"
| "finValue PInf = 0"
| "finValue NInf = 0"
| "finValue NaN = 0"

definition zeroOf :: "bool \<Rightarrow> jsnum" where
  "zeroOf negative = (if negative then NegZero else Fin 0)"

definition infOf :: "bool \<Rightarrow> jsnum" where
  "infOf negative = (if negative then NInf else PInf)"

definition fmul :: "(rat \<Rightarrow> jsnum) \<Rightarrow> jsnum \<Rightarrow> jsnum \<Rightarrow> jsnum" where
  "fmul rnd x y =
     (if x = NaN \<or> y = NaN then NaN
      else if isInf x \<or> isInf y then
        (if isZero x \<or> isZero y then NaN else infOf (signBit x \<noteq> signBit y))
      else if isZero x \<or> isZero y then zeroOf (signBit x \<noteq> signBit y)
      else rnd (finValue x * finValue y))"

definition fdiv :: "(rat \<Rightarrow> jsnum) \<Rightarrow> jsnum \<Rightarrow> jsnum \<Rightarrow> jsnum" where
  "fdiv rnd x y =
     (if x = NaN \<or> y = NaN then NaN
      else if isInf x then (if isInf y then NaN else infOf (signBit x \<noteq> signBit y))
      else if isInf y then zeroOf (signBit x \<noteq> signBit y)
      else if isZero y then (if isZero x then NaN else infOf (signBit x \<noteq> signBit y))
      else if isZero x then zeroOf (signBit x \<noteq> signBit y)
      else rnd (finValue x / finValue y))"

definition fadd :: "(rat \<Rightarrow> jsnum) \<Rightarrow> jsnum \<Rightarrow> jsnum \<Rightarrow> jsnum" where
  "fadd rnd x y =
     (if x = NaN \<or> y = NaN then NaN
      else if isInf x then (if isInf y \<and> x \<noteq> y then NaN else x)
      else if isInf y then y
      else if isZero x \<and> isZero y then (if x = NegZero \<and> y = NegZero then NegZero else Fin 0)
      else if isZero x then y
      else if isZero y then x
      else if finValue x + finValue y = 0 then Fin 0
      else rnd (finValue x + finValue y))"

fun fneg :: "jsnum \<Rightarrow> jsnum" where
  "fneg (Fin r) = (if r = 0 then NegZero else Fin (- r))"
| "fneg NegZero = Fin 0"
| "fneg PInf = NInf"
| "fneg NInf = PInf"
| "fneg NaN = NaN"

definition fsub :: "(rat \<Rightarrow> jsnum) \<Rightarrow> jsnum \<Rightarrow> jsnum \<Rightarrow> jsnum" where
  "fsub rnd x y = fadd rnd x (fneg y)"

text \<open>The comparisons \<open>x < y\<close>, \<open>x === y\<close> and \<open>x <= y\<close>. They are exact; every comparison
  with NaN is false, and the two zeros are equal.\<close>

definition fless :: "jsnum \<Rightarrow> jsnum \<Rightarrow> bool" where
  "fless x y =
     (if x = NaN \<or> y = NaN then False
      else if x = PInf \<or> y = NInf then False
      else if x = NInf \<or> y = PInf then True
      else finValue x < finValue y)"

definition feq :: "jsnum \<Rightarrow> jsnum \<Rightarrow> bool" where
  "feq x y = (x \<noteq> NaN \<and> y \<noteq> NaN \<and> (x = y \<or> (isZero x \<and> isZero y)))"

definition fle :: "jsnum \<Rightarrow> jsnum \<Rightarrow> bool" where
  "fle x y = (fless x y \<or> feq x y)"

text \<open>\<open>x || 0\<close> for an array entry: an entry that is not a number (\<open>undefined\<close>, \<open>null\<close>)
  is \<open>None\<close>; a zero or NaN is falsy as well.\<close>

definition orZero :: "jsnum option \<Rightarrow> jsnum" where
  "orZero x =
     (case x of None \<Rightarrow> Fin 0
      | Some v \<Rightarrow> if v = NaN \<or> isZero v then Fin 0 else v)"

section \<open>ArbitrageEngine: the margin and stake calculator\<close>

datatype bookie = Azuro | Overtime

text \<open>An entry of \<open>bestOdds\<close> as the first loop pushes it, and the same object once the
  second loop has added its \<open>stake\<close>.\<close>

record best_odd =
  outcomeIndex :: nat
  bookie :: bookie
  effOdd :: jsnum
  rawOdd :: "jsnum option"

record leg = best_odd +
  stake :: jsnum

text \<open>The returned object. A field the returned literal does not have is \<open>None\<close>. An odds
  array that is itself missing is \<open>None\<close>.\<close>

record opportunity =
  isArbitrage :: bool
  margin :: "jsnum option"
  reason :: "string option"
  matchId :: "string option"
  profitPercentage :: "jsnum option"
  minNetProfit :: "jsnum option"
  legs :: "leg list option"
  gasCosts :: "jsnum option"

definition shortCircuit :: "string \<Rightarrow> opportunity" where
  "shortCircuit r =
     \<lparr>isArbitrage = False, margin = Some (Fin 0), reason = Some r, matchId = None,
      profitPercentage = None, minNetProfit = None, legs = None, gasCosts = None\<rparr>"

definition noArbitrage :: "jsnum \<Rightarrow> opportunity" where
  "noArbitrage m =
     \<lparr>isArbitrage = False, margin = Some m, reason = None, matchId = None,
      profitPercentage = None, minNetProfit = None, legs = None, gasCosts = None\<rparr>"

text \<open>The locals of the first loop: \<open>margin\<close>, \<open>bestOdds\<close>, \<open>usesAzuro\<close>,
  \<open>usesDexsport\<close>.\<close>

record scan_state =
  marginAcc :: jsnum
  bestOdds :: "best_odd list"
  usesAzuro :: bool
  usesDexsport :: bool

text \<open>\<open>(odds[i] || 0) * (1 - commission)\<close>.\<close>

definition effective :: "(rat \<Rightarrow> jsnum) \<Rightarrow> jsnum \<Rightarrow> jsnum option \<Rightarrow> jsnum" where
  "effective rnd commission raw = fmul rnd (orZero raw) (fsub rnd (Fin 1) commission)"

text \<open>Loop 1 (\<open>for i = 0 .. numOutcomes - 1\<close>). Both arrays have \<open>numOutcomes\<close> entries when
  the loop is reached, so the loop runs over the entries paired by index; \<open>Inl\<close> is the
  reason string of an early return.\<close>

fun bestOddsLoop ::
  "(rat \<Rightarrow> jsnum) \<Rightarrow> jsnum \<Rightarrow> jsnum \<Rightarrow> nat \<Rightarrow> (jsnum option \<times> jsnum option) list \<Rightarrow>
   scan_state \<Rightarrow> string + scan_state"
where
  "bestOddsLoop rnd commissionA commissionB i [] st = Inr st"
| "bestOddsLoop rnd commissionA commissionB i ((a, d) # rest) st =
     (let effAzuro = effective rnd commissionA a;
          effDexsport = effective rnd commissionB d
      in if isZero effAzuro \<and> isZero effDexsport then Inl ''Zero odds on an outcome''
         else if fless effDexsport effAzuro then
           (if fle effAzuro (Fin 0) then Inl ''Zero odds on best outcome''
            else bestOddsLoop rnd commissionA commissionB (Suc i) rest
                   \<lparr>marginAcc = fadd rnd (marginAcc st) (fdiv rnd (Fin 1) effAzuro),
                    bestOdds = bestOdds st @
                      [\<lparr>outcomeIndex = i, bookie = Azuro, effOdd = effAzuro, rawOdd = a\<rparr>],
                    usesAzuro = True, usesDexsport = usesDexsport st\<rparr>)
         else
           (if fle effDexsport (Fin 0) then Inl ''Zero odds on best outcome''
            else bestOddsLoop rnd commissionA commissionB (Suc i) rest
                   \<lparr>marginAcc = fadd rnd (marginAcc st) (fdiv rnd (Fin 1) effDexsport),
                    bestOdds = bestOdds st @
                      [\<lparr>outcomeIndex = i, bookie = Overtime, effOdd = effDexsport, rawOdd = d\<rparr>],
                    usesAzuro = usesAzuro st, usesDexsport = True\<rparr>))"

text \<open>Loop 2: every entry of \<open>bestOdds\<close> receives its stake,
  \<open>totalInvestment * (1 / effOdd) / margin\<close>.\<close>

definition addStake :: "(rat \<Rightarrow> jsnum) \<Rightarrow> jsnum \<Rightarrow> jsnum \<Rightarrow> best_odd \<Rightarrow> leg" where
  "addStake rnd totalInvestment m b =
     \<lparr>outcomeIndex = outcomeIndex b, bookie = bookie b, effOdd = effOdd b,
      rawOdd = rawOdd b,
      stake = fdiv rnd (fmul rnd totalInvestment (fdiv rnd (Fin 1) (effOdd b))) m\<rparr>"

definition scanInit :: scan_state where
  "scanInit = \<lparr>marginAcc = Fin 0, bestOdds = [], usesAzuro = False, usesDexsport = False\<rparr>"

text \<open>\<open>let totalGasCost = 0; if (usesAzuro) totalGasCost += gasFeeA;
  if (usesDexsport) totalGasCost += gasFeeB\<close>.\<close>

definition gasCostOf :: "(rat \<Rightarrow> jsnum) \<Rightarrow> scan_state \<Rightarrow> jsnum \<Rightarrow> jsnum \<Rightarrow> jsnum" where
  "gasCostOf rnd st gasFeeA gasFeeB =
     (let g1 = (if usesAzuro st then fadd rnd (Fin 0) gasFeeA else Fin 0)
      in if usesDexsport st then fadd rnd g1 gasFeeB else g1)"

definition calculateArbitrageOpportunity ::
  "(rat \<Rightarrow> jsnum) \<Rightarrow> string \<Rightarrow> jsnum option list option \<Rightarrow> jsnum option list option \<Rightarrow>
   jsnum \<Rightarrow> jsnum \<Rightarrow> jsnum \<Rightarrow> jsnum \<Rightarrow> jsnum \<Rightarrow> bool \<Rightarrow> bool \<Rightarrow> opportunity"
where
  "calculateArbitrageOpportunity rnd mid azuroOddsArray dexsportOddsArray totalInvestment
       gasFeeA gasFeeB commissionA commissionB isMarketFrozenA isMarketFrozenB =
     (if isMarketFrozenA \<or> isMarketFrozenB then shortCircuit ''Market Suspended''
      else case azuroOddsArray of
        None \<Rightarrow> shortCircuit ''Odds missing''
      | Some az \<Rightarrow>
         (case dexsportOddsArray of
            None \<Rightarrow> shortCircuit ''Odds missing''
          | Some dx \<Rightarrow>
             if length az = 0 then shortCircuit ''Odds missing''
             else if length az \<noteq> length dx then shortCircuit ''Odds array length mismatch''
             else
               (case bestOddsLoop rnd commissionA commissionB 0 (zip az dx) scanInit of
                  Inl r \<Rightarrow> shortCircuit r
                | Inr st \<Rightarrow>
                   if fle (Fin 1) (marginAcc st) then noArbitrage (marginAcc st)
                   else
                     (let staked = map (addStake rnd totalInvestment (marginAcc st)) (bestOdds st);
                          totalGasCost = gasCostOf rnd st gasFeeA gasFeeB;
                          netReturn = fdiv rnd totalInvestment (marginAcc st);
                          trueNetProfit = fsub rnd (fsub rnd netReturn totalInvestment) totalGasCost;
                          isProfitable = fless (Fin 0) trueNetProfit
                      in \<lparr>isArbitrage = isProfitable, margin = None, reason = None,
                          matchId = Some mid,
                          profitPercentage = Some
                            (fmul rnd (fdiv rnd trueNetProfit totalInvestment) (Fin 100)),
                          minNetProfit = Some trueNetProfit,
                          legs = Some staked,
                          gasCosts = Some totalGasCost\<rparr>))))"

section \<open>dictionaryHydration: the fuzzy matcher\<close>

subsection \<open>Dice's coefficient\<close>

text \<open>
  A string is the list of its code units; the bigram at \<open>i\<close> is \<open>s.substring(i, i + 2)\<close>.
  \<open>bigrams1\<close> is a \<open>Map\<close> from bigrams to counts, and \<open>bigrams1.get(b) || 0\<close> is
  \<open>getOrZero\<close>.
\<close>

definition bigramsOf :: "string \<Rightarrow> string list" where
  "bigramsOf s = map (\<lambda>i. take 2 (drop i s)) [0..<length s - 1]"

definition getOrZero :: "(string \<rightharpoonup> nat) \<Rightarrow> string \<Rightarrow> nat" where
  "getOrZero m b = (case m b of None \<Rightarrow> 0 | Some c \<Rightarrow> c)"

fun countBigrams :: "string list \<Rightarrow> (string \<rightharpoonup> nat) \<Rightarrow> (string \<rightharpoonup> nat)" where
  "countBigrams [] bigrams1 = bigrams1"
| "countBigrams (bigram # rest) bigrams1 =
     countBigrams rest (bigrams1(bigram \<mapsto> getOrZero bigrams1 bigram + 1))"

fun intersectionLoop :: "string list \<Rightarrow> (string \<rightharpoonup> nat) \<Rightarrow> nat \<Rightarrow> nat" where
  "intersectionLoop [] bigrams1 intersection = intersection"
| "intersectionLoop (bigram # rest) bigrams1 intersection =
     (let count = getOrZero bigrams1 bigram
      in if count > 0
         then intersectionLoop rest (bigrams1(bigram \<mapsto> count - 1)) (intersection + 1)
         else intersectionLoop rest bigrams1 intersection)"

definition diceCoefficient :: "string \<Rightarrow> string \<Rightarrow> rat" where
  "diceCoefficient s1 s2 =
     (if s1 = [] \<or> s2 = [] then 0
      else if s1 = s2 then 1
      else if length s1 < 2 \<or> length s2 < 2 then 0
      else (2 * of_nat (intersectionLoop (bigramsOf s2) (countBigrams (bigramsOf s1) Map.empty) 0))
           / of_nat ((length s1 - 1) + (length s2 - 1)))"

subsection \<open>findBestMatch\<close>

text \<open>The loop's locals are \<open>(bestRating, bestIndex, bestTarget)\<close>; the result is
  \<open>{bestMatch: {target, rating}, bestMatchIndex}\<close>.\<close>

record best_match =
  target :: string
  rating :: rat
  bestMatchIndex :: nat

fun findBestMatchLoop ::
  "string \<Rightarrow> string list \<Rightarrow> nat \<Rightarrow> rat \<times> nat \<times> string \<Rightarrow> rat \<times> nat \<times> string"
where
  "findBestMatchLoop mainString [] i acc = acc"
| "findBestMatchLoop mainString (t # rest) i (bestRating, bestIndex, bestTarget) =
     (let r = diceCoefficient mainString t
      in if r > bestRating then findBestMatchLoop mainString rest (Suc i) (r, i, t)
         else findBestMatchLoop mainString rest (Suc i) (bestRating, bestIndex, bestTarget))"

definition findBestMatch :: "string \<Rightarrow> string list \<Rightarrow> best_match" where
  "findBestMatch mainString targetStrings =
     (case findBestMatchLoop mainString targetStrings 0 (0, 0, []) of
        (bestRating, bestIndex, bestTarget) \<Rightarrow>
          \<lparr>target = bestTarget, rating = bestRating, bestMatchIndex = bestIndex\<rparr>)"

subsection \<open>Events and name cleaning\<close>

text \<open>
  Code units are taken below 256 (Latin-1), where \<open>toLowerCase\<close> maps \<open>A-Z\<close> and the
  accented capitals to their small letters, and where \<open>\s\<close> and \<open>trim\<close> know the tab,
  the line feed, the vertical tab, the form feed, the carriage return, the space and the
  no-break space. A \<open>sport\<close> that is absent is \<open>None\<close>; a \<open>startTime\<close> that is not a
  number (\<open>parseInt\<close> gave NaN) is \<open>None\<close>, and a comparison with it is false.

  Scores and hour differences are exact rationals. A score is one correctly rounded
  quotient of two small integers and the fetchers' start times are integers, so the
  comparisons with 0.45 and with 36 come out in floating point as they do here.
\<close>

record market_event =
  event_id :: string
  name :: string
  sport :: "string option"
  startTime :: "rat option"
  odds :: "jsnum option list"

definition toLowerCaseChar :: "char \<Rightarrow> char" where
  "toLowerCaseChar c =
     (let n = (of_char c :: nat)
      in if (65 \<le> n \<and> n \<le> 90) \<or> (192 \<le> n \<and> n \<le> 222 \<and> n \<noteq> 215)
         then char_of (n + 32) else c)"

definition toLowerCase :: "string \<Rightarrow> string" where
  "toLowerCase s = map toLowerCaseChar s"

definition isWhiteSpace :: "char \<Rightarrow> bool" where
  "isWhiteSpace c = ((of_char c :: nat) \<in> {9, 10, 11, 12, 13, 32, 160})"

definition isLowerAlnum :: "char \<Rightarrow> bool" where
  "isLowerAlnum c =
     (let n = (of_char c :: nat) in (97 \<le> n \<and> n \<le> 122) \<or> (48 \<le> n \<and> n \<le> 57))"

definition trim :: "string \<Rightarrow> string" where
  "trim s = rev (dropWhile isWhiteSpace (rev (dropWhile isWhiteSpace s)))"

definition cleanStr :: "string \<Rightarrow> string" where
  "cleanStr s = trim (filter (\<lambda>c. isLowerAlnum c \<or> isWhiteSpace c) (toLowerCase s))"

definition sportKey :: "market_event \<Rightarrow> string" where
  "sportKey e =
     toLowerCase (case sport e of None \<Rightarrow> ''unknown''
                  | Some s \<Rightarrow> if s = [] then ''unknown'' else s)"

subsection \<open>hydrateDictionaryByCompositeKey\<close>

text \<open>
  \<open>targetBySport\<close> is a plain object: reading a key it does not own falls through to
  \<open>Object.prototype\<close>. The only lower-case keys found there are \<open>constructor\<close> and
  \<open>__proto__\<close>; both values are truthy and have neither \<open>push\<close> nor \<open>map\<close>, so the code
  throws a TypeError on them, outside its \<open>try\<close>. \<open>ThrownError\<close> is any other exception
  (a collaborator's).

  The target events are objects the function mutates (the name backfill) while the
  buckets and the emitted pairs refer to them, so the model keeps them in a store, the
  list \<open>targets\<close>, and a bucket or a pair's \<open>eventB\<close> holds a position in that list.
\<close>

datatype js_error = TypeError | ThrownError

definition isPrototypeKey :: "string \<Rightarrow> bool" where
  "isPrototypeKey k = (k = ''constructor'' \<or> k = ''__proto__'')"

record matched_pair =
  eventA :: market_event
  eventB :: nat
  confidence :: rat

record hydrate_state =
  targets :: "market_event list"
  matchedPairs :: "matched_pair list"

text \<open>Phase 1, over the target events with their positions.\<close>

fun groupBySport ::
  "(nat \<times> market_event) list \<Rightarrow> (string \<rightharpoonup> nat list) \<Rightarrow> js_error + (string \<rightharpoonup> nat list)"
where
  "groupBySport [] targetBySport = Inr targetBySport"
| "groupBySport ((j, targetEvent) # rest) targetBySport =
     (let sport = sportKey targetEvent
      in if isPrototypeKey sport then Inl TypeError
         else groupBySport rest
                (targetBySport(sport \<mapsto>
                   (case targetBySport sport of None \<Rightarrow> [] | Some b \<Rightarrow> b) @ [j])))"

definition timeDiffHours :: "market_event \<Rightarrow> market_event \<Rightarrow> rat option" where
  "timeDiffHours a t =
     (case startTime a of None \<Rightarrow> None
      | Some x \<Rightarrow> (case startTime t of None \<Rightarrow> None | Some y \<Rightarrow> Some (\<bar>x - y\<bar> / 3600)))"

definition withinHours :: "rat option \<Rightarrow> rat \<Rightarrow> bool" where
  "withinHours h bound = (case h of None \<Rightarrow> False | Some v \<Rightarrow> v \<le> bound)"

text \<open>The acceptance branch: backfill the name, push the pair.\<close>

definition acceptMatch :: "market_event \<Rightarrow> nat \<Rightarrow> rat \<Rightarrow> hydrate_state \<Rightarrow> hydrate_state" where
  "acceptMatch azuroEvent w r st =
     \<lparr>targets = (targets st)[w := (targets st ! w)\<lparr>name := name azuroEvent\<rparr>],
      matchedPairs = matchedPairs st @ [\<lparr>eventA = azuroEvent, eventB = w, confidence = r\<rparr>]\<rparr>"

text \<open>The body of the phase 2 loop for one source event. \<open>Inr st\<close> unchanged is
  \<open>continue\<close>, or a \<open>try\<close> block that ended without a match.\<close>

definition hydrateStep ::
  "(string \<rightharpoonup> nat list) \<Rightarrow> market_event \<Rightarrow> hydrate_state \<Rightarrow> js_error + hydrate_state"
where
  "hydrateStep targetBySport azuroEvent st =
     (let sport = sportKey azuroEvent;
          azuroCleanName = cleanStr (name azuroEvent)
      in if isPrototypeKey sport then
           (if length azuroCleanName < 2 then Inr st else Inl TypeError)
         else case targetBySport sport of
           None \<Rightarrow> Inr st
         | Some matchingTargetEvents \<Rightarrow>
            if length matchingTargetEvents = 0 then Inr st
            else if length azuroCleanName < 2 then Inr st
            else
              (let targetNamesMap =
                     filter (\<lambda>n. length n > 1)
                       (map (\<lambda>j. cleanStr (name (targets st ! j))) matchingTargetEvents)
               in if length targetNamesMap = 0 then Inr st
                  else
                    (let result = findBestMatch azuroCleanName targetNamesMap
                     in if rating result > 45 / 100 then
                          (if bestMatchIndex result < length matchingTargetEvents then
                             (let w = matchingTargetEvents ! bestMatchIndex result
                              in if withinHours (timeDiffHours azuroEvent (targets st ! w)) 36
                                 then Inr (acceptMatch azuroEvent w (rating result) st)
                                 else Inr st)
                           else Inr st)
                        else Inr st)))"

fun hydrateLoop ::
  "(string \<rightharpoonup> nat list) \<Rightarrow> market_event list \<Rightarrow> hydrate_state \<Rightarrow> js_error + hydrate_state"
where
  "hydrateLoop targetBySport [] st = Inr st"
| "hydrateLoop targetBySport (azuroEvent # rest) st =
     (case hydrateStep targetBySport azuroEvent st of
        Inl e \<Rightarrow> Inl e
      | Inr st' \<Rightarrow> hydrateLoop targetBySport rest st')"

definition hydrateDictionaryByCompositeKey ::
  "market_event list \<Rightarrow> market_event list \<Rightarrow> js_error + hydrate_state"
where
  "hydrateDictionaryByCompositeKey azuroEvents targetEvents =
     (case groupBySport (enumerate 0 targetEvents) Map.empty of
        Inl e \<Rightarrow> Inl e
      | Inr targetBySport \<Rightarrow>
          hydrateLoop targetBySport azuroEvents \<lparr>targets = targetEvents, matchedPairs = []\<rparr>)"

section \<open>The discovery cycle\<close>

text \<open>
  The module's globals are the coordinator's state. What the collaborators answer
  during one cycle is the cycle's environment: the two discovery fetches, the gas
  oracle, the two \<open>process.env\<close> switches, the live quotes and the execution engine
  (the last three asked once per pair, so indexed by the pair's position), each either
  returning or throwing. Every awaited call is taken to settle. The cycle also returns
  the list of collaborator calls it made, in order. \<open>rnd\<close> is the rounding of the
  machine's arithmetic, as in the calculator.
\<close>

record coordinator_state =
  isDiscoveryRunning :: bool
  previousAzuroIds :: "string set"
  previousOvertimeIds :: "string set"
  placedBets :: "string set"

record live_odds =
  isFrozen :: bool
  odds_live :: "jsnum option list"

record cycle_env =
  fetchAzuro :: "js_error + market_event list"
  fetchOvertime :: "js_error + market_event list"
  gasPolygon :: "js_error + jsnum"
  gasArbitrum :: "js_error + jsnum"
  polygonWsUrl :: bool
  arbitrumRpcUrl :: bool
  azuroLive :: "nat \<Rightarrow> js_error + live_odds"
  overtimeLive :: "nat \<Rightarrow> js_error + live_odds"
  evaluateAndExecute :: "nat \<Rightarrow> opportunity \<Rightarrow> js_error + bool"
  TOTAL_INVESTMENT :: jsnum

datatype action =
    FetchActiveEvents
  | Hydrate
  | GetGasCost
  | GetLatestOddsAzuro string
  | GetLatestOddsOvertime string
  | Calculate string string
  | Execute string string

record pairs_state =
  bets :: "string set"
  calls :: "action list"

text \<open>The literals \<open>0.05\<close> and \<open>0.03\<close>.\<close>

definition AZURO_COMMISSION :: "(rat \<Rightarrow> jsnum) \<Rightarrow> jsnum" where
  "AZURO_COMMISSION rnd = rnd (5 / 100)"

definition OVERTIME_COMMISSION :: "(rat \<Rightarrow> jsnum) \<Rightarrow> jsnum" where
  "OVERTIME_COMMISSION rnd = rnd (3 / 100)"

definition betKeyOf :: "string \<Rightarrow> string \<Rightarrow> string" where
  "betKeyOf idA idB = idA @ ''_'' @ idB"

definition freezeIfEmpty :: "live_odds \<Rightarrow> live_odds" where
  "freezeIfEmpty l = (if length (odds_live l) = 0 then l\<lparr>isFrozen := True\<rparr> else l)"

text \<open>The Overtime quote is asked for only when \<open>ARBITRUM_RPC_URL\<close> is set.\<close>

definition quoted :: "cycle_env \<Rightarrow> market_event \<Rightarrow> pairs_state \<Rightarrow> pairs_state" where
  "quoted env subOv ps =
     ps\<lparr>calls := calls ps @
          (if arbitrumRpcUrl env then [GetLatestOddsOvertime (event_id subOv)] else [])\<rparr>"

text \<open>The loop over the matched pairs. \<open>store\<close> holds the target events as the matcher
  left them; \<open>Some e\<close> in the result is an exception on its way to the cycle's \<open>catch\<close>.
  What the loop has already added to \<open>placedBets\<close> stays added.\<close>

fun processPairs ::
  "(rat \<Rightarrow> jsnum) \<Rightarrow> cycle_env \<Rightarrow> jsnum \<Rightarrow> jsnum \<Rightarrow> market_event list \<Rightarrow> nat \<Rightarrow>
   matched_pair list \<Rightarrow> pairs_state \<Rightarrow> js_error option \<times> pairs_state"
where
  "processPairs rnd env avgPolygonGas avgArbitrumGas store k [] ps = (None, ps)"
| "processPairs rnd env avgPolygonGas avgArbitrumGas store k (pair # rest) ps =
     (if eventB pair < length store then
        (let subAz = eventA pair;
             subOv = store ! eventB pair;
             betKey = betKeyOf (event_id subAz) (event_id subOv)
         in if betKey \<in> bets ps
            then processPairs rnd env avgPolygonGas avgArbitrumGas store (Suc k) rest ps
            else
              (let ps1 = ps\<lparr>calls := calls ps @
                           (if polygonWsUrl env then [GetLatestOddsAzuro (event_id subAz)]
                            else [])\<rparr>
               in case (if polygonWsUrl env then azuroLive env k
                        else Inr \<lparr>isFrozen = False, odds_live = odds subAz\<rparr>) of
                    Inl e \<Rightarrow> (Some e, ps1)
                  | Inr liveAzuro0 \<Rightarrow>
                     (case (if arbitrumRpcUrl env then overtimeLive env k
                            else Inr \<lparr>isFrozen = False, odds_live = odds subOv\<rparr>) of
                        Inl e \<Rightarrow> (Some e, quoted env subOv ps1)
                      | Inr liveOvertime0 \<Rightarrow>
                         (let liveAzuro = freezeIfEmpty liveAzuro0;
                              liveOvertime = freezeIfEmpty liveOvertime0;
                              result = calculateArbitrageOpportunity rnd (name subAz)
                                         (Some (odds_live liveAzuro)) (Some (odds_live liveOvertime))
                                         (TOTAL_INVESTMENT env) avgPolygonGas avgArbitrumGas
                                         (AZURO_COMMISSION rnd) (OVERTIME_COMMISSION rnd)
                                         (isFrozen liveAzuro) (isFrozen liveOvertime);
                              ps2 = (quoted env subOv ps1)\<lparr>calls := calls (quoted env subOv ps1) @
                                      [Calculate (event_id subAz) (event_id subOv)]\<rparr>
                          in if isArbitrage result then
                               (let ps3 = ps2\<lparr>calls := calls ps2 @
                                            [Execute (event_id subAz) (event_id subOv)]\<rparr>
                                in case evaluateAndExecute env k
                                          (result\<lparr>matchId := Some (event_id subAz)\<rparr>) of
                                     Inl e \<Rightarrow> (Some e, ps3)
                                   | Inr ok \<Rightarrow>
                                       processPairs rnd env avgPolygonGas avgArbitrumGas store (Suc k)
                                         rest (ps3\<lparr>bets := insert betKey (bets ps3)\<rparr>))
                             else processPairs rnd env avgPolygonGas avgArbitrumGas store (Suc k)
                                    rest ps2))))
      else (Some TypeError, ps))"

text \<open>The body of the \<open>try\<close>, run with the flag already set. An exception ends it where it
  stands; the state reached by then is what the \<open>finally\<close> block receives.\<close>

definition discoveryBody ::
  "(rat \<Rightarrow> jsnum) \<Rightarrow> cycle_env \<Rightarrow> coordinator_state \<Rightarrow> coordinator_state \<times> action list"
where
  "discoveryBody rnd env s =
     (case fetchAzuro env of
        Inl e \<Rightarrow> (s, [FetchActiveEvents])
      | Inr azuroData \<Rightarrow>
         (case fetchOvertime env of
            Inl e \<Rightarrow> (s, [FetchActiveEvents])
          | Inr overtimeData \<Rightarrow>
             (let currentAzuroIds = set (map event_id azuroData);
                  currentOvertimeIds = set (map event_id overtimeData);
                  isAzuroIdentical = (currentAzuroIds \<subseteq> previousAzuroIds s \<and>
                                      card currentAzuroIds = card (previousAzuroIds s));
                  isOvertimeIdentical = (currentOvertimeIds \<subseteq> previousOvertimeIds s \<and>
                                         card currentOvertimeIds = card (previousOvertimeIds s));
                  s1 = (if isAzuroIdentical \<and> isOvertimeIdentical \<and>
                           (length azuroData > 0 \<or> length overtimeData > 0)
                        then s
                        else s\<lparr>previousAzuroIds := currentAzuroIds,
                               previousOvertimeIds := currentOvertimeIds\<rparr>)
              in case hydrateDictionaryByCompositeKey azuroData overtimeData of
                   Inl e \<Rightarrow> (s1, [FetchActiveEvents, Hydrate])
                 | Inr h \<Rightarrow>
                    if length (matchedPairs h) > 0 then
                      (case gasPolygon env of
                         Inl e \<Rightarrow> (s1, [FetchActiveEvents, Hydrate, GetGasCost])
                       | Inr avgPolygonGas \<Rightarrow>
                          (case gasArbitrum env of
                             Inl e \<Rightarrow> (s1, [FetchActiveEvents, Hydrate, GetGasCost])
                           | Inr g \<Rightarrow>
                              (let avgArbitrumGas =
                                     (if g = NaN \<or> isZero g then rnd (1 / 10) else g);
                                   r = processPairs rnd env avgPolygonGas avgArbitrumGas (targets h) 0
                                         (matchedPairs h)
                                         \<lparr>bets = placedBets s1,
                                          calls = [FetchActiveEvents, Hydrate, GetGasCost]\<rparr>
                               in (s1\<lparr>placedBets := bets (snd r)\<rparr>, calls (snd r)))))
                    else (s1, [FetchActiveEvents, Hydrate]))))"

definition runDiscoveryCycle ::
  "(rat \<Rightarrow> jsnum) \<Rightarrow> cycle_env \<Rightarrow> coordinator_state \<Rightarrow> coordinator_state \<times> action list"
where
  "runDiscoveryCycle rnd env s =
     (if isDiscoveryRunning s then (s, [])
      else (let r = discoveryBody rnd env (s\<lparr>isDiscoveryRunning := True\<rparr>)
            in ((fst r)\<lparr>isDiscoveryRunning := False\<rparr>, snd r)))"

text \<open>Cycle after cycle, each with its own environment; the calls are collected.\<close>

fun runCycles ::
  "(rat \<Rightarrow> jsnum) \<Rightarrow> cycle_env list \<Rightarrow> coordinator_state \<Rightarrow> coordinator_state \<times> action list"
where
  "runCycles rnd [] s = (s, [])"
| "runCycles rnd (env # envs) s =
     (let r = runDiscoveryCycle rnd env s; r' = runCycles rnd envs (fst r)
      in (fst r', snd r @ snd r'))"

section \<open>Events used as concrete inputs\<close>

abbreviation exA :: market_event where
  "exA \<equiv> \<lparr>event_id = ''a1'', name = ''Arsenal vs Chelsea'', sport = Some ''Football'',
          startTime = Some 1000, odds = [Some (Fin 2), Some (Fin 2)]\<rparr>"

text \<open>Starts exactly 36 hours (129600 seconds) after \<open>exA\<close>.\<close>

abbreviation exT :: market_event where
  "exT \<equiv> \<lparr>event_id = ''t1'', name = ''Arsenal vs Chelsea FC'', sport = Some ''Football'',
          startTime = Some 130600, odds = [Some (Fin 2), Some (Fin 2)]\<rparr>"

text \<open>A target whose cleaned name is empty, and one named like \<open>exA\<close>.\<close>

abbreviation exShort :: market_event where
  "exShort \<equiv> \<lparr>event_id = ''t0'', name = ''?'', sport = Some ''Football'',
          startTime = Some 1000, odds = [Some (Fin 2), Some (Fin 2)]\<rparr>"

text \<open>The same nameless target, starting 40 hours (144000 seconds) after \<open>exA\<close>.\<close>

abbreviation exShortLate :: market_event where
  "exShortLate \<equiv> \<lparr>event_id = ''t0'', name = ''?'', sport = Some ''Football'',
          startTime = Some 145000, odds = [Some (Fin 2), Some (Fin 2)]\<rparr>"

abbreviation exSame :: market_event where
  "exSame \<equiv> \<lparr>event_id = ''t1'', name = ''Arsenal vs Chelsea'', sport = Some ''Football'',
          startTime = Some 1000, odds = [Some (Fin 2), Some (Fin 2)]\<rparr>"

text \<open>A cycle whose two venues list one event each, with odds that make an arbitrage;
  an idle coordinator that has placed no bet, and one that is in the middle of a cycle.\<close>

abbreviation exAz :: market_event where
  "exAz \<equiv> \<lparr>event_id = ''a1'', name = ''Arsenal vs Chelsea'', sport = Some ''Football'',
          startTime = Some 1000, odds = [Some (Fin (5 / 2)), Some (Fin (5 / 2))]\<rparr>"
abbreviation exOv :: market_event where
  "exOv \<equiv> \<lparr>event_id = ''t1'', name = ''Arsenal vs Chelsea'', sport = Some ''Football'',
          startTime = Some 1000, odds = [Some (Fin (5 / 2)), Some (Fin (5 / 2))]\<rparr>"

abbreviation exEnv :: cycle_env where
  "exEnv \<equiv> \<lparr>fetchAzuro = Inr [exAz], fetchOvertime = Inr [exOv],
     gasPolygon = Inr (Fin (1 / 10)), gasArbitrum = Inr (Fin (1 / 10)),
     polygonWsUrl = False, arbitrumRpcUrl = False,
     azuroLive = (\<lambda>k. Inl ThrownError), overtimeLive = (\<lambda>k. Inl ThrownError),
     evaluateAndExecute = (\<lambda>k r. Inr True), TOTAL_INVESTMENT = Fin 100\<rparr>"

abbreviation exIdle :: coordinator_state where
  "exIdle \<equiv> \<lparr>isDiscoveryRunning = False, previousAzuroIds = {}, previousOvertimeIds = {},
     placedBets = {}\<rparr>"

abbreviation exRunning :: coordinator_state where
  "exRunning \<equiv> \<lparr>isDiscoveryRunning = True, previousAzuroIds = {}, previousOvertimeIds = {},
     placedBets = {}\<rparr>"

section \<open>Properties of the calculator\<close>

subsection \<open>The order of the numbers\<close>

lemmas jsnum_order_defs = fless_def feq_def fle_def isZero_def isInf_def

lemma isZero_fle_zero: "isZero x \<Longrightarrow> fle x (Fin 0)"
  by (auto simp: jsnum_order_defs)

lemma fless_fle_zero: "fless y x \<Longrightarrow> fle x (Fin 0) \<Longrightarrow> fle y (Fin 0)"
  by (cases x; cases y) (auto simp: jsnum_order_defs split: if_splits)

lemma not_fless_fle_zero:
  "x \<noteq> NaN \<Longrightarrow> y \<noteq> NaN \<Longrightarrow> \<not> fless y x \<Longrightarrow> fle y (Fin 0) \<Longrightarrow> fle x (Fin 0)"
  by (cases x; cases y) (auto simp: jsnum_order_defs split: if_splits)

lemma feq_not_fless: "feq x y \<Longrightarrow> \<not> fless y x"
  by (cases x; cases y) (auto simp: jsnum_order_defs split: if_splits)

lemma not_fle_zero_positive: "x \<noteq> NaN \<Longrightarrow> \<not> fle x (Fin 0) \<Longrightarrow> fless (Fin 0) x"
  by (cases x) (auto simp: jsnum_order_defs split: if_splits)

lemma feq_not_NaN: "feq x y \<Longrightarrow> x \<noteq> NaN \<and> y \<noteq> NaN"
  by (simp add: feq_def)

subsection \<open>Exact arithmetic on finite values\<close>






subsection \<open>What the first loop has computed when it runs to its end\<close>

lemma bestOddsLoop_Inr:
  "bestOddsLoop rnd cA cB i ps st = Inr st' \<Longrightarrow>
   \<exists>bs. bestOdds st' = bestOdds st @ bs \<and> length bs = length ps \<and>
     marginAcc st' =
       foldl (\<lambda>m b. fadd rnd m (fdiv rnd (Fin 1) (effOdd b))) (marginAcc st) bs \<and>
     (\<forall>k<length ps. outcomeIndex (bs ! k) = i + k \<and>
        effOdd (bs ! k) = 
          (if fless (effective rnd cB (snd (ps ! k))) (effective rnd cA (fst (ps ! k)))
           then effective rnd cA (fst (ps ! k)) else effective rnd cB (snd (ps ! k))) \<and>
        \<not> fle (effOdd (bs ! k)) (Fin 0) \<and>
        (bookie (bs ! k) = Azuro \<longleftrightarrow>
           fless (effective rnd cB (snd (ps ! k))) (effective rnd cA (fst (ps ! k)))) \<and>
        (bookie (bs ! k) = Overtime \<longleftrightarrow>
           \<not> fless (effective rnd cB (snd (ps ! k))) (effective rnd cA (fst (ps ! k)))))"
proof (induction ps arbitrary: i st)
  case Nil
  then show ?case by simp
next
  case (Cons p ps)
  obtain a d where p: "p = (a, d)" by (cases p)
  let ?eA = "effective rnd cA a" and ?eD = "effective rnd cB d"
  let ?P = "\<lambda>j bs. \<forall>k<length ps. outcomeIndex (bs ! k) = j + k \<and>
        effOdd (bs ! k) = 
          (if fless (effective rnd cB (snd (ps ! k))) (effective rnd cA (fst (ps ! k)))
           then effective rnd cA (fst (ps ! k)) else effective rnd cB (snd (ps ! k))) \<and>
        \<not> fle (effOdd (bs ! k)) (Fin 0) \<and>
        (bookie (bs ! k) = Azuro \<longleftrightarrow>
           fless (effective rnd cB (snd (ps ! k))) (effective rnd cA (fst (ps ! k)))) \<and>
        (bookie (bs ! k) = Overtime \<longleftrightarrow>
           \<not> fless (effective rnd cB (snd (ps ! k))) (effective rnd cA (fst (ps ! k))))"
  show ?case
  proof (cases "fless ?eD ?eA")
    case True
    let ?b = "\<lparr>outcomeIndex = i, bookie = Azuro, effOdd = ?eA, rawOdd = a\<rparr>"
    let ?st1 = "\<lparr>marginAcc = fadd rnd (marginAcc st) (fdiv rnd (Fin 1) ?eA),
                 bestOdds = bestOdds st @ [?b],
                 usesAzuro = True, usesDexsport = usesDexsport st\<rparr>"
    from Cons.prems True p have pos: "\<not> fle ?eA (Fin 0)"
      and rec: "bestOddsLoop rnd cA cB (Suc i) ps ?st1 = Inr st'"
      by (auto simp: Let_def split: if_splits)
    from Cons.IH[OF rec] obtain bs where bs:
      "bestOdds st' = bestOdds ?st1 @ bs" "length bs = length ps"
      "marginAcc st' =
         foldl (\<lambda>m b. fadd rnd m (fdiv rnd (Fin 1) (effOdd b))) (marginAcc ?st1) bs"
      "?P (Suc i) bs"
      by blast
    show ?thesis
      apply (rule exI[of _ "?b # bs"])
      using bs True pos p by (auto simp: nth_Cons split: nat.splits)
  next
    case False
    let ?b = "\<lparr>outcomeIndex = i, bookie = Overtime, effOdd = ?eD, rawOdd = d\<rparr>"
    let ?st1 = "\<lparr>marginAcc = fadd rnd (marginAcc st) (fdiv rnd (Fin 1) ?eD),
                 bestOdds = bestOdds st @ [?b],
                 usesAzuro = usesAzuro st, usesDexsport = True\<rparr>"
    from Cons.prems False p have pos: "\<not> fle ?eD (Fin 0)"
      and rec: "bestOddsLoop rnd cA cB (Suc i) ps ?st1 = Inr st'"
      by (auto simp: Let_def split: if_splits)
    from Cons.IH[OF rec] obtain bs where bs:
      "bestOdds st' = bestOdds ?st1 @ bs" "length bs = length ps"
      "marginAcc st' =
         foldl (\<lambda>m b. fadd rnd m (fdiv rnd (Fin 1) (effOdd b))) (marginAcc ?st1) bs"
      "?P (Suc i) bs"
      by blast
    show ?thesis
      apply (rule exI[of _ "?b # bs"])
      using bs False pos p by (auto simp: nth_Cons split: nat.splits)
  qed
qed

subsection \<open>Stake allocation\<close>

lemma calc_legs_cases:
  assumes "legs (calculateArbitrageOpportunity rnd mid az dx T gA gB cA cB fA fB) = Some ls"
  shows "\<exists>a d st. az = Some a \<and> dx = Some d \<and> a \<noteq> [] \<and> length a = length d \<and> \<not> fA \<and> \<not> fB \<and>
     bestOddsLoop rnd cA cB 0 (zip a d) scanInit = Inr st \<and> \<not> fle (Fin 1) (marginAcc st) \<and>
     ls = map (addStake rnd T (marginAcc st)) (bestOdds st)"
  using assms
  by (auto simp: calculateArbitrageOpportunity_def shortCircuit_def noArbitrage_def Let_def
      split: if_splits option.splits sum.splits)

text \<open>The stake allocation is reached exactly when no check returns early and the
  margin is not at least 1.\<close>

lemma legs_present_iff:
  "legs (calculateArbitrageOpportunity rnd mid az dx T gA gB cA cB fA fB) \<noteq> None \<longleftrightarrow>
   (\<exists>a d st. az = Some a \<and> dx = Some d \<and> a \<noteq> [] \<and> length a = length d \<and> \<not> fA \<and> \<not> fB \<and>
      bestOddsLoop rnd cA cB 0 (zip a d) scanInit = Inr st \<and> \<not> fle (Fin 1) (marginAcc st))"
  by (auto simp: calculateArbitrageOpportunity_def shortCircuit_def noArbitrage_def Let_def
      split: if_splits option.splits sum.splits)








subsection \<open>The \<open>margin\<close> field of the returned object\<close>

lemma margin_absent_iff_legs:
  "margin (calculateArbitrageOpportunity rnd mid az dx T gA gB cA cB fA fB) = None \<longleftrightarrow>
   legs (calculateArbitrageOpportunity rnd mid az dx T gA gB cA cB fA fB) \<noteq> None"
  by (auto simp: calculateArbitrageOpportunity_def shortCircuit_def noArbitrage_def Let_def
      split: if_splits option.splits sum.splits)

lemma margin_ge_1_noArbitrage:
  assumes "\<not> fA" and "\<not> fB" and "a \<noteq> []" and "length a = length d"
    and "bestOddsLoop rnd cA cB 0 (zip a d) scanInit = Inr st" and "fle (Fin 1) (marginAcc st)"
  shows "calculateArbitrageOpportunity rnd mid (Some a) (Some d) T gA gB cA cB fA fB =
     noArbitrage (marginAcc st)"
  using assms by (auto simp add: calculateArbitrageOpportunity_def)

text \<open>
  Claim C2. "Every result returned by \<open>calculateArbitrageOpportunity\<close> contains a numeric
  margin field." The early returns and the \<open>margin \<ge> 1\<close> return carry \<open>margin\<close>
  (\<open>margin_absent_iff_legs\<close>, \<open>margin_ge_1_noArbitrage\<close>), but the object returned after
  the stake allocation has no \<open>margin\<close> field, although \<open>evaluateAndExecute\<close> of the
  ExecutionEngine reads \<open>arbitrageResult.margin\<close> from exactly these objects. The
  two-outcome market \<open>[2.10, 2.00]\<close> against \<open>[1.80, 2.30]\<close> with an investment of 100
  and no fees is an arbitrage, and its result has no margin.
\<close>

theorem C2_margin_missing_on_arbitrage:
  "margin (calculateArbitrageOpportunity Fin ''m'' (Some [Some (Fin (21 / 10)), Some (Fin 2)])
      (Some [Some (Fin (18 / 10)), Some (Fin (23 / 10))]) (Fin 100) (Fin 0) (Fin 0) (Fin 0) (Fin 0)
      False False) = None
   \<and> isArbitrage (calculateArbitrageOpportunity Fin ''m'' (Some [Some (Fin (21 / 10)), Some (Fin 2)])
      (Some [Some (Fin (18 / 10)), Some (Fin (23 / 10))]) (Fin 100) (Fin 0) (Fin 0) (Fin 0) (Fin 0)
      False False)"
  by code_simp

subsection \<open>Non-positive odds\<close>

lemma bestOddsLoop_first_nonpositive:
  "i < length ps \<Longrightarrow>
   fle (effective rnd cA (fst (ps ! i))) (Fin 0) \<and> fle (effective rnd cB (snd (ps ! i))) (Fin 0) \<Longrightarrow>
   \<forall>j<i. effective rnd cA (fst (ps ! j)) \<noteq> NaN \<and> effective rnd cB (snd (ps ! j)) \<noteq> NaN \<and>
     \<not> (fle (effective rnd cA (fst (ps ! j))) (Fin 0) \<and>
        fle (effective rnd cB (snd (ps ! j))) (Fin 0)) \<Longrightarrow>
   bestOddsLoop rnd cA cB k ps st =
     Inl (if isZero (effective rnd cA (fst (ps ! i))) \<and> isZero (effective rnd cB (snd (ps ! i)))
          then ''Zero odds on an outcome'' else ''Zero odds on best outcome'')"
proof (induction ps arbitrary: i k st)
  case Nil
  then show ?case by simp
next
  case (Cons p ps)
  obtain a d where p: "p = (a, d)" by (cases p)
  let ?eA = "effective rnd cA a" and ?eD = "effective rnd cB d"
  show ?case
  proof (cases i)
    case 0
    with Cons.prems p have le: "fle ?eA (Fin 0)" "fle ?eD (Fin 0)" by auto
    show ?thesis using le by (simp add: p 0 Let_def)
  next
    case (Suc i')
    with Cons.prems(3) p have nn: "?eA \<noteq> NaN" "?eD \<noteq> NaN"
      and hd: "\<not> (fle ?eA (Fin 0) \<and> fle ?eD (Fin 0))"
      by force+
    have nz: "\<not> (isZero ?eA \<and> isZero ?eD)"
      using hd isZero_fle_zero by blast
    have best: "if fless ?eD ?eA then \<not> fle ?eA (Fin 0) else \<not> fle ?eD (Fin 0)"
    proof (cases "fless ?eD ?eA")
      case True
      with hd fless_fle_zero[of ?eD ?eA] show ?thesis by auto
    next
      case False
      with hd not_fless_fle_zero[OF nn False] show ?thesis by auto
    qed
    from Suc Cons.prems have i': "i' < length ps"
      and at: "fle (effective rnd cA (fst (ps ! i'))) (Fin 0) \<and>
               fle (effective rnd cB (snd (ps ! i'))) (Fin 0)"
      and before: "\<forall>j<i'. effective rnd cA (fst (ps ! j)) \<noteq> NaN \<and>
          effective rnd cB (snd (ps ! j)) \<noteq> NaN \<and>
          \<not> (fle (effective rnd cA (fst (ps ! j))) (Fin 0) \<and>
             fle (effective rnd cB (snd (ps ! j))) (Fin 0))"
      by auto
    note IH = Cons.IH[OF i' at before]
    show ?thesis
      using nz best by (auto simp: p Suc Let_def IH split: if_splits)
  qed
qed

text \<open>
  Claim C4, as the code has it. The first loop tests the effective odds, and tests them
  for being exactly zero; a best effective odd that is negative, or zero beside a
  negative one, leaves through the second test with another reason. So: when no earlier
  check applies and \<open>i\<close> is the first outcome index at which both venues' effective odds
  are non-positive (no effective odd before \<open>i\<close> being NaN), the call returns
  \<open>isArbitrage = false\<close>, \<open>margin = 0\<close> and no legs, with reason "Zero odds on an
  outcome" when both effective odds at \<open>i\<close> are exactly zero and "Zero odds on best
  outcome" otherwise. This holds whatever the rounding.
\<close>

theorem C4_nonpositive_odds_reason:
  assumes "\<not> fA" and "\<not> fB" and "length a = length d"
    and "i < length a"
    and "fle (effective rnd cA (a ! i)) (Fin 0) \<and> fle (effective rnd cB (d ! i)) (Fin 0)"
    and "\<forall>j<i. effective rnd cA (a ! j) \<noteq> NaN \<and> effective rnd cB (d ! j) \<noteq> NaN \<and>
           \<not> (fle (effective rnd cA (a ! j)) (Fin 0) \<and> fle (effective rnd cB (d ! j)) (Fin 0))"
  shows "calculateArbitrageOpportunity rnd mid (Some a) (Some d) T gA gB cA cB fA fB =
     shortCircuit (if isZero (effective rnd cA (a ! i)) \<and> isZero (effective rnd cB (d ! i))
                   then ''Zero odds on an outcome'' else ''Zero odds on best outcome'')"
proof -
  have ne: "a \<noteq> []" "d \<noteq> []" using assms(3,4) by auto
  have "bestOddsLoop rnd cA cB 0 (zip a d) scanInit =
     Inl (if isZero (effective rnd cA (fst (zip a d ! i))) \<and>
             isZero (effective rnd cB (snd (zip a d ! i)))
          then ''Zero odds on an outcome'' else ''Zero odds on best outcome'')"
    using assms by (intro bestOddsLoop_first_nonpositive) auto
  then show ?thesis
    using assms ne by (auto simp add: calculateArbitrageOpportunity_def)
qed

theorem C4_nonpositive_odds_reason_witness:
  "calculateArbitrageOpportunity Fin ''m'' (Some [Some (Fin 2), Some (Fin 0)])
      (Some [Some (Fin 3), Some (Fin 0)]) (Fin 100) (Fin 0) (Fin 0) (Fin 0) (Fin 0) False False
   = shortCircuit ''Zero odds on an outcome''"
proof -
  have e: "effective Fin (Fin 0) (Some (Fin 2)) = Fin 2"
    "effective Fin (Fin 0) (Some (Fin 3)) = Fin 3"
    "effective Fin (Fin 0) (Some (Fin 0)) = Fin 0"
    by code_simp+
  show ?thesis
    using C4_nonpositive_odds_reason [of False False "[Some (Fin 2), Some (Fin 0)]"
        "[Some (Fin 3), Some (Fin 0)]" 1 Fin "Fin 0" "Fin 0" "''m''" "Fin 100" "Fin 0" "Fin 0"]
    by (simp add: e jsnum_order_defs)
qed

text \<open>Both venues report \<open>-1\<close> for the only outcome: the reason is the other one.\<close>

theorem C4_counterexample:
  "fle (orZero (Some (Fin (-1)))) (Fin 0) \<and>
   calculateArbitrageOpportunity Fin ''m'' (Some [Some (Fin (-1))]) (Some [Some (Fin (-1))])
      (Fin 100) (Fin 0) (Fin 0) (Fin 0) (Fin 0) False False
   = shortCircuit ''Zero odds on best outcome''"
  by code_simp

subsection \<open>Arrays of different lengths\<close>

text \<open>
  Claim C5, as the code has it. The length comparison is the third check, after the
  suspension check and the missing-odds check. For two arrays of different lengths the
  call returns an \<open>isArbitrage = false\<close> object with a reason, whatever the entries are:
  "Market Suspended" when either market is frozen, otherwise "Odds missing" when the
  first array is empty, otherwise "Odds array length mismatch". No entry of either array
  is read, and the outcome is a returned object, not an exception.
\<close>

theorem C5_length_mismatch:
  assumes "length a \<noteq> length d"
  shows "calculateArbitrageOpportunity rnd mid (Some a) (Some d) T gA gB cA cB fA fB =
     shortCircuit (if fA \<or> fB then ''Market Suspended''
                   else if a = [] then ''Odds missing''
                   else ''Odds array length mismatch'')"
  using assms by (simp add: calculateArbitrageOpportunity_def)

theorem C5_length_mismatch_witness:
  "calculateArbitrageOpportunity Fin ''m'' (Some [Some (Fin 2), Some (Fin 3)]) (Some [Some (Fin 2)])
      (Fin 100) (Fin 0) (Fin 0) (Fin 0) (Fin 0) False False
   = shortCircuit ''Odds array length mismatch''"
  using C5_length_mismatch [of "[Some (Fin 2), Some (Fin 3)]" "[Some (Fin 2)]" Fin "''m''"
      "Fin 100" "Fin 0" "Fin 0" "Fin 0" "Fin 0" False False]
  by simp

text \<open>An empty first array against a one-entry second array.\<close>

theorem C5_counterexample:
  "length ([] :: jsnum option list) \<noteq> length [Some (Fin 2)] \<and>
   reason (calculateArbitrageOpportunity Fin ''m'' (Some []) (Some [Some (Fin 2)])
      (Fin 100) (Fin 0) (Fin 0) (Fin 0) (Fin 0) False False) = Some ''Odds missing''"
  by (simp add: calculateArbitrageOpportunity_def shortCircuit_def)

subsection \<open>Which venue a leg is routed to\<close>

text \<open>
  Claim C10, as the code has it. The comparison is between the two effective odds as
  the machine computed them. In every returned list of legs, whatever the rounding, the
  leg of outcome \<open>i\<close> is routed to venue A (\<open>Azuro\<close>) exactly when A's computed
  effective odds are strictly greater than B's; when the two computed values are
  equal (\<open>===\<close>) the leg goes to venue B (\<open>Overtime\<close>), and the common value is then
  positive. Two effective odds that are both zero never yield a leg: the zero check of
  that outcome returns first.
\<close>

theorem C10_tie_goes_to_B:
  assumes "legs (calculateArbitrageOpportunity rnd mid az dx T gA gB cA cB fA fB) = Some ls"
  shows "\<exists>a d. az = Some a \<and> dx = Some d \<and> length d = length a \<and> length ls = length a \<and>
     (\<forall>i<length a.
        (bookie (ls ! i) = Azuro \<longleftrightarrow> fless (effective rnd cB (d ! i)) (effective rnd cA (a ! i))) \<and>
        (feq (effective rnd cA (a ! i)) (effective rnd cB (d ! i)) \<longrightarrow>
           bookie (ls ! i) = Overtime \<and> fless (Fin 0) (effective rnd cB (d ! i))))"
proof -
  from calc_legs_cases[OF assms] obtain a d st where
    az: "az = Some a" and dx: "dx = Some d" and len: "length a = length d"
    and loop: "bestOddsLoop rnd cA cB 0 (zip a d) scanInit = Inr st"
    and ls: "ls = map (addStake rnd T (marginAcc st)) (bestOdds st)"
    by blast
  define bs where "bs = bestOdds st"
  from bestOddsLoop_Inr[OF loop] len have
    bl: "length bs = length a"
    and el: "\<forall>k<length a.
        effOdd (bs ! k) =
          (if fless (effective rnd cB (d ! k)) (effective rnd cA (a ! k))
           then effective rnd cA (a ! k) else effective rnd cB (d ! k)) \<and>
        \<not> fle (effOdd (bs ! k)) (Fin 0) \<and>
        (bookie (bs ! k) = Azuro \<longleftrightarrow> fless (effective rnd cB (d ! k)) (effective rnd cA (a ! k))) \<and>
        (bookie (bs ! k) = Overtime \<longleftrightarrow>
           \<not> fless (effective rnd cB (d ! k)) (effective rnd cA (a ! k)))"
    by (auto simp: scanInit_def bs_def)
  have "\<forall>i<length a.
        (bookie (ls ! i) = Azuro \<longleftrightarrow> fless (effective rnd cB (d ! i)) (effective rnd cA (a ! i))) \<and>
        (feq (effective rnd cA (a ! i)) (effective rnd cB (d ! i)) \<longrightarrow>
           bookie (ls ! i) = Overtime \<and> fless (Fin 0) (effective rnd cB (d ! i)))"
  proof (intro allI impI)
    fix i assume i: "i < length a"
    let ?eA = "effective rnd cA (a ! i)" and ?eD = "effective rnd cB (d ! i)"
    have l: "bookie (ls ! i) = bookie (bs ! i)"
      using i bl by (simp add: ls bs_def addStake_def)
    from el i have
      e1: "effOdd (bs ! i) = (if fless ?eD ?eA then ?eA else ?eD)"
      and e2: "\<not> fle (effOdd (bs ! i)) (Fin 0)"
      and e3: "bookie (bs ! i) = Azuro \<longleftrightarrow> fless ?eD ?eA"
      and e4: "bookie (bs ! i) = Overtime \<longleftrightarrow> \<not> fless ?eD ?eA"
      by auto
    have tie: "bookie (ls ! i) = Overtime \<and> fless (Fin 0) ?eD" if q: "feq ?eA ?eD"
    proof -
      from q have nl: "\<not> fless ?eD ?eA" by (rule feq_not_fless)
      from q have nn: "?eD \<noteq> NaN" using feq_not_NaN by blast
      from nl e1 e2 have "\<not> fle ?eD (Fin 0)" by simp
      with nn have "fless (Fin 0) ?eD" by (rule not_fle_zero_positive)
      with nl e4 l show ?thesis by simp
    qed
    show "(bookie (ls ! i) = Azuro \<longleftrightarrow> fless ?eD ?eA) \<and>
        (feq ?eA ?eD \<longrightarrow> bookie (ls ! i) = Overtime \<and> fless (Fin 0) ?eD)"
      using e3 l tie by auto
  qed
  moreover have "length ls = length a" by (simp add: ls bl[unfolded bs_def])
  ultimately show ?thesis using az dx len by auto
qed

theorem C10_tie_goes_to_B_witness:
  "legs (calculateArbitrageOpportunity Fin ''m'' (Some [Some (Fin 3), Some (Fin 4)])
      (Some [Some (Fin 3), Some (Fin 2)]) (Fin 100) (Fin 0) (Fin 0) (Fin 0) (Fin 0) False False)
   = Some [\<lparr>outcomeIndex = 0, bookie = Overtime, effOdd = Fin 3, rawOdd = Some (Fin 3),
             stake = Fin (400 / 7)\<rparr>,
           \<lparr>outcomeIndex = 1, bookie = Azuro, effOdd = Fin 4, rawOdd = Some (Fin 4),
             stake = Fin (300 / 7)\<rparr>]
   \<and> feq (effective Fin (Fin 0) (Some (Fin 3))) (effective Fin (Fin 0) (Some (Fin 3)))
   \<and> bookie ([\<lparr>outcomeIndex = 0, bookie = Overtime, effOdd = Fin 3, rawOdd = Some (Fin 3),
                 stake = Fin (400 / 7)\<rparr>,
               \<lparr>outcomeIndex = 1, bookie = Azuro, effOdd = Fin 4, rawOdd = Some (Fin 4),
                 stake = Fin (300 / 7)\<rparr>] ! 0) = Overtime"
proof -
  let ?ls = "[\<lparr>outcomeIndex = 0, bookie = Overtime, effOdd = Fin 3, rawOdd = Some (Fin 3),
                 stake = Fin (400 / 7)\<rparr>,
               \<lparr>outcomeIndex = 1, bookie = Azuro, effOdd = Fin 4, rawOdd = Some (Fin 4),
                 stake = Fin (300 / 7)\<rparr>]"
  have e: "legs (calculateArbitrageOpportunity Fin ''m'' (Some [Some (Fin 3), Some (Fin 4)])
      (Some [Some (Fin 3), Some (Fin 2)]) (Fin 100) (Fin 0) (Fin 0) (Fin 0) (Fin 0) False False)
      = Some ?ls"
    by code_simp
  have r: "feq (effective Fin (Fin 0) (Some (Fin 3))) (effective Fin (Fin 0) (Some (Fin 3)))"
    by code_simp
  from C10_tie_goes_to_B[OF e] have
    "feq (effective Fin (Fin 0) ([Some (Fin 3), Some (Fin 4)] ! 0))
         (effective Fin (Fin 0) ([Some (Fin 3), Some (Fin 2)] ! 0)) \<longrightarrow>
       bookie (?ls ! 0) = Overtime"
    by fastforce
  with r have b: "bookie (?ls ! 0) = Overtime" by simp
  show ?thesis by (rule conjI[OF e conjI[OF r b]])
qed

text \<open>Outcome 0 is a tie at 3, outcome 1 has both effective odds zero: no leg at all.\<close>

theorem C10_counterexample:
  "feq (effective Fin (Fin 0) (Some (Fin 0))) (effective Fin (Fin 0) (Some (Fin 0))) \<and>
   calculateArbitrageOpportunity Fin ''m'' (Some [Some (Fin 3), Some (Fin 0)])
      (Some [Some (Fin 3), Some (Fin 0)]) (Fin 100) (Fin 0) (Fin 0) (Fin 0) (Fin 0) False False
   = shortCircuit ''Zero odds on an outcome'' \<and>
   legs (shortCircuit ''Zero odds on an outcome'') = None"
  by code_simp

subsection \<open>Worked examples\<close>

text \<open>Three outcomes, commissions of 5 and 3 per cent, exact arithmetic: the best
  effective odds are 2.037 (B), 3.325 (A) and 3.8 (A), the margin exceeds 1, and the
  margin is returned.\<close>

lemma spec_scenario_margin_above_1:
  "calculateArbitrageOpportunity Fin ''m''
      (Some [Some (Fin 2), Some (Fin (35 / 10)), Some (Fin 4)])
      (Some [Some (Fin (21 / 10)), Some (Fin 3), Some (Fin (38 / 10))])
      (Fin 100) (Fin 0) (Fin 0) (Fin (5 / 100)) (Fin (3 / 100)) False False
   = noArbitrage (Fin (1 / (2037 / 1000) + 1 / (3325 / 1000) + 1 / (38 / 10)))"
  by code_simp

text \<open>With infinite odds on the only outcome the margin is 0 and the stake is NaN.\<close>

lemma all_infinite_odds_give_NaN_stake:
  "legs (calculateArbitrageOpportunity Fin ''m'' (Some [Some PInf]) (Some [Some PInf])
      (Fin 100) (Fin 0) (Fin 0) (Fin (5 / 100)) (Fin (3 / 100)) False False)
   = Some [\<lparr>outcomeIndex = 0, bookie = Overtime, effOdd = PInf, rawOdd = Some PInf,
            stake = NaN\<rparr>]"
  by code_simp

text \<open>The margin test sees the rounded sum. At \<open>[2, 3, 6]\<close> the exact margin is 1 and no
  stake is allocated; under a rounding that takes the last partial sum of the margin
  just below 1 (the doubles give 0.9999999999999999) the same odds reach the stake
  allocation.\<close>

lemma margin_one_exact:
  "calculateArbitrageOpportunity Fin ''m'' (Some [Some (Fin 2), Some (Fin 3), Some (Fin 6)])
      (Some [Some (Fin 2), Some (Fin 3), Some (Fin 6)])
      (Fin 100) (Fin 0) (Fin 0) (Fin 0) (Fin 0) False False = noArbitrage (Fin 1)"
  by code_simp

lemma margin_one_rounded_down:
  "legs (calculateArbitrageOpportunity (\<lambda>r. if r = 1 then Fin (1 - 1 / 2 ^ 53) else Fin r) ''m''
      (Some [Some (Fin 2), Some (Fin 3), Some (Fin 6)])
      (Some [Some (Fin 2), Some (Fin 3), Some (Fin 6)])
      (Fin 100) (Fin 0) (Fin 0) (Fin 0) (Fin 0) False False) \<noteq> None"
  by code_simp

text \<open>The venue test sees the rounded products. With odds 2.813 against 2.755 and the
  commissions 0.05 and 0.03 the exact effective odds are both 2.67235 and the leg goes
  to venue B; under a rounding that makes the literal \<open>0.05\<close> a little smaller, A's
  product is the greater one and the leg goes to venue A.\<close>

lemma exact_tie_goes_to_B:
  "map bookie (the (legs (calculateArbitrageOpportunity Fin ''m''
      (Some [Some (Fin (2813 / 1000))]) (Some [Some (Fin (2755 / 1000))])
      (Fin 100) (Fin 0) (Fin 0) (AZURO_COMMISSION Fin) (OVERTIME_COMMISSION Fin) False False)))
   = [Overtime]"
  by code_simp

lemma rounded_tie_goes_to_A:
  "map bookie (the (legs (calculateArbitrageOpportunity
      (\<lambda>r. if r = 5 / 100 then Fin (5 / 100 - 1 / 10 ^ 18) else Fin r) ''m''
      (Some [Some (Fin (2813 / 1000))]) (Some [Some (Fin (2755 / 1000))])
      (Fin 100) (Fin 0) (Fin 0)
      (AZURO_COMMISSION (\<lambda>r. if r = 5 / 100 then Fin (5 / 100 - 1 / 10 ^ 18) else Fin r))
      (OVERTIME_COMMISSION (\<lambda>r. if r = 5 / 100 then Fin (5 / 100 - 1 / 10 ^ 18) else Fin r))
      False False)))
   = [Azuro]"
  by code_simp

section \<open>Properties of the matcher\<close>

subsection \<open>The similarity score\<close>

lemma getOrZero_countBigrams:
  "getOrZero (countBigrams bs m) b = getOrZero m b + count (mset bs) b"
  by (induction bs arbitrary: m) (auto simp: getOrZero_def)

lemma intersectionLoop_mset:
  "(\<And>b. getOrZero m b = count X b) \<Longrightarrow>
   intersectionLoop ys m n = n + size (X \<inter># mset ys)"
proof (induction ys arbitrary: m n X)
  case Nil
  then show ?case by simp
next
  case (Cons y ys)
  show ?case
  proof (cases "0 < getOrZero m y")
    case True
    then have yin: "y \<in># X" using Cons.prems[of y] by (simp add: count_greater_zero_iff[symmetric] del: count_greater_zero_iff)
    let ?m' = "m(y \<mapsto> getOrZero m y - 1)"
    have inv: "\<And>b. getOrZero ?m' b = count (X - {#y#}) b"
      using Cons.prems by (auto simp: getOrZero_def)
    have "intersectionLoop (y # ys) m n = intersectionLoop ys ?m' (n + 1)"
      using True by (simp add: Let_def)
    also have "\<dots> = n + 1 + size ((X - {#y#}) \<inter># mset ys)"
      by (rule Cons.IH[OF inv])
    finally have step: "intersectionLoop (y # ys) m n = n + 1 + size ((X - {#y#}) \<inter># mset ys)" .
    have "size ((X - {#y#}) \<inter># mset ys) + 1 = size (X \<inter># mset (y # ys))"
    proof -
      obtain X' where X: "X = add_mset y X'" using yin by (meson mset_add)
      show ?thesis by (simp add: X)
    qed
    with step show ?thesis by simp
  next
    case False
    then have ynin: "y \<notin># X" using Cons.prems[of y] by (simp add: not_in_iff)
    have "intersectionLoop (y # ys) m n = intersectionLoop ys m n"
      using False by (simp add: Let_def)
    also have "\<dots> = n + size (X \<inter># mset ys)"
      by (rule Cons.IH[OF Cons.prems])
    also have "X \<inter># mset ys = X \<inter># mset (y # ys)"
      using ynin by (simp add: inter_add_right1)
    finally show ?thesis .
  qed
qed

lemma intersection_is_multiset_intersection:
  "intersectionLoop ys (countBigrams xs Map.empty) 0 = size (mset xs \<inter># mset ys)"
proof -
  have "\<And>b. getOrZero (countBigrams xs Map.empty) b = count (mset xs) b"
    by (simp add: getOrZero_countBigrams) (simp add: getOrZero_def)
  from intersectionLoop_mset[OF this] show ?thesis by simp
qed

lemma diceCoefficient_sym: "diceCoefficient a b = diceCoefficient b a"
proof -
  have "size (mset (bigramsOf a) \<inter># mset (bigramsOf b)) = size (mset (bigramsOf b) \<inter># mset (bigramsOf a))"
    by (simp add: subset_mset.inf_commute)
  then show ?thesis
    by (auto simp: diceCoefficient_def intersection_is_multiset_intersection add.commute)
qed

text \<open>
  Claim C6, as the code has it. \<open>diceCoefficient\<close> is symmetric; it returns 1 for
  identical non-empty strings (the identity test comes before the length test, so also
  for two equal one-character strings); and it returns 0 whenever either string has
  fewer than two characters, unless the two are the same non-empty string.
\<close>

theorem C6_dice_symmetric_identity_short:
  "diceCoefficient a b = diceCoefficient b a \<and>
   (a \<noteq> [] \<longrightarrow> diceCoefficient a a = 1) \<and>
   ((length a < 2 \<or> length b < 2) \<and> (a \<noteq> b \<or> a = []) \<longrightarrow> diceCoefficient a b = 0)"
proof (intro conjI impI)
  show "diceCoefficient a b = diceCoefficient b a" by (rule diceCoefficient_sym)
next
  assume "a \<noteq> []" then show "diceCoefficient a a = 1" by (simp add: diceCoefficient_def)
next
  assume "(length a < 2 \<or> length b < 2) \<and> (a \<noteq> b \<or> a = [])"
  then show "diceCoefficient a b = 0" by (auto simp: diceCoefficient_def)
qed

theorem C6_dice_symmetric_identity_short_witness:
  "diceCoefficient ''night'' ''nacht'' = diceCoefficient ''nacht'' ''night'' \<and>
   diceCoefficient ''night'' ''night'' = 1 \<and>
   diceCoefficient ''n'' ''night'' = 0"
  using C6_dice_symmetric_identity_short [of "''night''" "''nacht''"] C6_dice_symmetric_identity_short [of "''night''" "''night''"] C6_dice_symmetric_identity_short [of "''n''" "''night''"]
  by simp

text \<open>Two equal strings of length one score 1, not 0.\<close>

theorem C6_counterexample: "length ''a'' < 2 \<and> diceCoefficient ''a'' ''a'' = 1"
  by (simp add: diceCoefficient_def)

text \<open>The score lies between 0 and 1.\<close>

lemma diceCoefficient_bounds: "0 \<le> diceCoefficient a b \<and> diceCoefficient a b \<le> 1"
proof -
  have sz: "length (bigramsOf s) = length s - 1" for s by (simp add: bigramsOf_def)
  have "size (mset (bigramsOf a) \<inter># mset (bigramsOf b)) \<le> size (mset (bigramsOf a))"
    by (intro size_mset_mono) simp
  moreover have "size (mset (bigramsOf a) \<inter># mset (bigramsOf b)) \<le> size (mset (bigramsOf b))"
    by (intro size_mset_mono) simp
  ultimately have le: "2 * size (mset (bigramsOf a) \<inter># mset (bigramsOf b)) \<le> (length a - 1) + (length b - 1)"
    by (simp add: sz)
  have "(2 * of_nat (size (mset (bigramsOf a) \<inter># mset (bigramsOf b))) :: rat) \<le> of_nat ((length a - 1) + (length b - 1))"
    using le by (metis of_nat_le_iff of_nat_mult of_nat_numeral)
  then show ?thesis
    by (auto simp: diceCoefficient_def intersection_is_multiset_intersection divide_le_eq_1 simp del: of_nat_add)
qed

subsection \<open>Which candidate \<open>findBestMatch\<close> selects\<close>

lemma findBestMatchLoop_spec:
  "findBestMatchLoop m ts i (r0, i0, t0) = (r, idx, t) \<Longrightarrow>
   r0 \<le> r \<and> (\<forall>c\<in>set ts. diceCoefficient m c \<le> r) \<and>
   ((r, idx, t) = (r0, i0, t0) \<or>
    (r0 < r \<and> i \<le> idx \<and> idx - i < length ts \<and> t = ts ! (idx - i) \<and>
     diceCoefficient m (ts ! (idx - i)) = r \<and>
     (\<forall>j<idx - i. diceCoefficient m (ts ! j) < r)))"
proof (induction ts arbitrary: i r0 i0 t0)
  case Nil
  then show ?case by simp
next
  case (Cons c ts)
  show ?case
  proof (cases "r0 < diceCoefficient m c")
    case True
    with Cons.prems have rec: "findBestMatchLoop m ts (Suc i) (diceCoefficient m c, i, c) = (r, idx, t)"
      by (simp add: Let_def)
    from Cons.IH[OF rec] have
      a: "diceCoefficient m c \<le> r" and b: "\<forall>c\<in>set ts. diceCoefficient m c \<le> r"
      and d: "(r, idx, t) = (diceCoefficient m c, i, c) \<or>
        (diceCoefficient m c < r \<and> Suc i \<le> idx \<and> idx - Suc i < length ts \<and> t = ts ! (idx - Suc i) \<and>
         diceCoefficient m (ts ! (idx - Suc i)) = r \<and>
         (\<forall>j<idx - Suc i. diceCoefficient m (ts ! j) < r))"
      by auto
    from d show ?thesis
    proof
      assume "(r, idx, t) = (diceCoefficient m c, i, c)"
      then show ?thesis using True a b by auto
    next
      assume h: "diceCoefficient m c < r \<and> Suc i \<le> idx \<and> idx - Suc i < length ts \<and> t = ts ! (idx - Suc i) \<and>
         diceCoefficient m (ts ! (idx - Suc i)) = r \<and>
         (\<forall>j<idx - Suc i. diceCoefficient m (ts ! j) < r)"
      then obtain k where k: "idx - i = Suc k" "idx - Suc i = k"
        by (metis Suc_diff_Suc Suc_le_lessD diff_Suc_eq_diff_pred)
      have "\<forall>j<idx - i. diceCoefficient m ((c # ts) ! j) < r"
        using h k by (auto simp: nth_Cons split: nat.splits)
      then show ?thesis using True a b h k by auto
    qed
  next
    case False
    with Cons.prems have rec: "findBestMatchLoop m ts (Suc i) (r0, i0, t0) = (r, idx, t)"
      by (simp add: Let_def)
    from Cons.IH[OF rec] have
      a: "r0 \<le> r" and b: "\<forall>c\<in>set ts. diceCoefficient m c \<le> r"
      and d: "(r, idx, t) = (r0, i0, t0) \<or>
        (r0 < r \<and> Suc i \<le> idx \<and> idx - Suc i < length ts \<and> t = ts ! (idx - Suc i) \<and>
         diceCoefficient m (ts ! (idx - Suc i)) = r \<and>
         (\<forall>j<idx - Suc i. diceCoefficient m (ts ! j) < r))"
      by auto
    from d show ?thesis
    proof
      assume "(r, idx, t) = (r0, i0, t0)"
      then show ?thesis using False a b by auto
    next
      assume h: "r0 < r \<and> Suc i \<le> idx \<and> idx - Suc i < length ts \<and> t = ts ! (idx - Suc i) \<and>
         diceCoefficient m (ts ! (idx - Suc i)) = r \<and>
         (\<forall>j<idx - Suc i. diceCoefficient m (ts ! j) < r)"
      then obtain k where k: "idx - i = Suc k" "idx - Suc i = k"
        by (metis Suc_diff_Suc Suc_le_lessD diff_Suc_eq_diff_pred)
      have "\<forall>j<idx - i. diceCoefficient m ((c # ts) ! j) < r"
        using h k False by (auto simp: nth_Cons split: nat.splits)
      then show ?thesis using False a b h k by auto
    qed
  qed
qed

text \<open>\<open>findBestMatch\<close> returns the first candidate whose score is the greatest, when some
  score is positive; otherwise rating 0 and index 0.\<close>

lemma findBestMatch_first_greatest:
  assumes "res = findBestMatch m ts"
  shows "(\<forall>c\<in>set ts. diceCoefficient m c \<le> rating res) \<and>
     (if 0 < rating res
      then bestMatchIndex res < length ts \<and> target res = ts ! bestMatchIndex res \<and>
           diceCoefficient m (ts ! bestMatchIndex res) = rating res \<and>
           (\<forall>j<bestMatchIndex res. diceCoefficient m (ts ! j) < rating res)
      else rating res = 0 \<and> bestMatchIndex res = 0)"
proof -
  obtain r idx t where l: "findBestMatchLoop m ts 0 (0, 0, []) = (r, idx, t)"
    by (cases "findBestMatchLoop m ts 0 (0, 0, [])") auto
  then have res: "rating res = r" "bestMatchIndex res = idx" "target res = t"
    using assms by (simp_all add: findBestMatch_def)
  from findBestMatchLoop_spec[OF l] show ?thesis
    unfolding res by auto
qed

lemma findBestMatch_index_in_range:
  "ts \<noteq> [] \<Longrightarrow> bestMatchIndex (findBestMatch m ts) < length ts"
  using findBestMatch_first_greatest[where res = "findBestMatch m ts" and m = m and ts = ts]
  by (auto split: if_splits)

subsection \<open>The acceptance gate of one loop iteration\<close>

text \<open>
  Take a source event \<open>e\<close> that reaches the scoring: its sport has a bucket \<open>B\<close>, its
  cleaned name has at least two characters, and some candidate name survives the length
  filter. Let \<open>res\<close> be what \<open>findBestMatch\<close> returns and \<open>w\<close> the bucket entry the code
  reads at \<open>bestMatchIndex\<close>. Then \<open>rating res\<close> bounds every candidate's score, and the
  iteration writes \<open>e\<close>'s name into \<open>w\<close> and appends the pair \<open>(e, w, rating res)\<close>
  exactly when \<open>rating res > 0.45\<close> and both start times are numbers whose absolute
  difference, divided by 3600, is at most 36; otherwise the state is unchanged.
\<close>

lemma hydrateStep_gate:
  assumes "\<not> isPrototypeKey (sportKey e)"
    and "tbs (sportKey e) = Some B"
    and "B \<noteq> []"
    and "2 \<le> length (cleanStr (name e))"
    and "cands = filter (\<lambda>n. length n > 1) (map (\<lambda>j. cleanStr (name (targets st ! j))) B)"
    and "cands \<noteq> []"
    and "res = findBestMatch (cleanStr (name e)) cands"
    and "w = B ! bestMatchIndex res"
  shows "(\<forall>c\<in>set cands. diceCoefficient (cleanStr (name e)) c \<le> rating res) \<and>
     hydrateStep tbs e st =
       Inr (if rating res > 45 / 100 \<and>
               (\<exists>x y. startTime e = Some x \<and> startTime (targets st ! w) = Some y \<and>
                      \<bar>x - y\<bar> / 3600 \<le> 36)
            then \<lparr>targets = (targets st)[w := (targets st ! w)\<lparr>name := name e\<rparr>],
                  matchedPairs = matchedPairs st @
                    [\<lparr>eventA = e, eventB = w, confidence = rating res\<rparr>]\<rparr>
            else st)"
proof -
  have best: "\<forall>c\<in>set cands. diceCoefficient (cleanStr (name e)) c \<le> rating res"
    using findBestMatch_first_greatest[OF assms(7)] by blast
  have "bestMatchIndex res < length cands"
    using assms(6,7) by (simp add: findBestMatch_index_in_range)
  also have "length cands \<le> length B"
    unfolding assms(5) by (rule order_trans[OF length_filter_le]) simp
  finally have inr: "bestMatchIndex res < length B" .
  have wh: "withinHours (timeDiffHours e t) 36 \<longleftrightarrow>
     (\<exists>x y. startTime e = Some x \<and> startTime t = Some y \<and> \<bar>x - y\<bar> / 3600 \<le> 36)" for t
    by (auto simp: withinHours_def timeDiffHours_def split: option.splits)
  have "hydrateStep tbs e st =
       Inr (if rating res > 45 / 100 \<and> withinHours (timeDiffHours e (targets st ! w)) 36
            then acceptMatch e w (rating res) st else st)"
    using assms(1-4) assms(6) inr
    unfolding assms(8) assms(7) assms(5)
    by (simp add: hydrateStep_def Let_def)
  with best show ?thesis by (simp only: wh acceptMatch_def)
qed

text \<open>Exactly 36 hours apart: accepted. One second more: rejected.\<close>

lemma hydrateStep_accepts_at_36_hours:
  "hydrateStep [''football'' \<mapsto> [0]] exA \<lparr>targets = [exT], matchedPairs = []\<rparr> =
     Inr \<lparr>targets = [exT\<lparr>name := ''Arsenal vs Chelsea''\<rparr>],
          matchedPairs = [\<lparr>eventA = exA, eventB = 0, confidence = 34 / 37\<rparr>]\<rparr>"
  by code_simp

lemma hydrateStep_rejects_beyond_36_hours:
  "hydrateStep [''football'' \<mapsto> [0]] exA
     \<lparr>targets = [exT\<lparr>startTime := Some 130601\<rparr>], matchedPairs = []\<rparr> =
     Inr \<lparr>targets = [exT\<lparr>startTime := Some 130601\<rparr>], matchedPairs = []\<rparr>"
  by code_simp

subsection \<open>Which target event a match is paired with\<close>

text \<open>
  Claim C3. \<open>findBestMatch\<close> does select the first candidate of strictly greatest score
  (\<open>findBestMatch_first_greatest\<close>), but \<open>bestMatchIndex\<close> counts positions in
  \<open>targetNamesMap\<close>, the names left after the length filter, and the code uses it as a
  position in the unfiltered bucket \<open>matchingTargetEvents\<close>. With a bucket holding first a
  target whose cleaned name is empty and then a target named exactly like the source
  event, the source event is paired with the first one, whose score is 0, and that
  one's name is overwritten; the best-scoring candidate, score 1, stays unpaired.
\<close>

theorem C3_eventB_is_not_best_candidate:
  "hydrateDictionaryByCompositeKey [exA] [exShort, exSame] =
     Inr \<lparr>targets = [exShort\<lparr>name := ''Arsenal vs Chelsea''\<rparr>, exSame],
          matchedPairs = [\<lparr>eventA = exA, eventB = 0, confidence = 1\<rparr>]\<rparr> \<and>
   diceCoefficient (cleanStr (name exA)) (cleanStr (name exShort)) = 0 \<and>
   diceCoefficient (cleanStr (name exA)) (cleanStr (name exSame)) = 1"
  by code_simp

text \<open>
  Claim C7. The code does test \<open>rating > 0.45\<close> and \<open>timeDiffHours <= 36\<close>, the bound
  included (\<open>hydrateStep_gate\<close>), but it measures the time against
  \<open>matchingTargetEvents[bestMatchIndex]\<close>, and \<open>bestMatchIndex\<close> counts positions in the
  length-filtered name list: the defect of claim C3. With a bucket holding first a
  target whose cleaned name is empty and which starts 40 hours after the source event,
  and then a target named exactly like the source event and starting at the same time,
  the best score is 1 and the best candidate is 0 hours away, yet no pair is emitted.
\<close>

theorem C7_best_candidate_in_time_is_rejected:
  "hydrateDictionaryByCompositeKey [exA] [exShortLate, exSame] =
     Inr \<lparr>targets = [exShortLate, exSame], matchedPairs = []\<rparr> \<and>
   rating (findBestMatch (cleanStr (name exA)) [cleanStr (name exSame)]) = 1 \<and>
   diceCoefficient (cleanStr (name exA)) (cleanStr (name exSame)) = 1 \<and>
   timeDiffHours exA exSame = Some 0 \<and>
   timeDiffHours exA exShortLate = Some 40"
  by code_simp

text \<open>The other way round: the best candidate starts 40 hours after the source event,
  the nameless target in front of it starts with the source event, and the pair is
  emitted, with the nameless target.\<close>

lemma best_candidate_out_of_time_is_accepted:
  "hydrateDictionaryByCompositeKey [exA] [exShort, exSame\<lparr>startTime := Some 145000\<rparr>] =
     Inr \<lparr>targets = [exShort\<lparr>name := ''Arsenal vs Chelsea''\<rparr>,
                     exSame\<lparr>startTime := Some 145000\<rparr>],
          matchedPairs = [\<lparr>eventA = exA, eventB = 0, confidence = 1\<rparr>]\<rparr>"
  by code_simp

text \<open>A source event that does not reach the scoring leaves the state as it is.\<close>

lemma hydrateStep_skips:
  assumes "\<not> isPrototypeKey (sportKey e)"
    and "tbs (sportKey e) = None \<or> tbs (sportKey e) = Some [] \<or> length (cleanStr (name e)) < 2 \<or>
         (\<exists>B. tbs (sportKey e) = Some B \<and>
            filter (\<lambda>n. length n > 1) (map (\<lambda>j. cleanStr (name (targets st ! j))) B) = [])"
  shows "hydrateStep tbs e st = Inr st"
  using assms by (auto simp: hydrateStep_def Let_def split: option.splits)

subsection \<open>Emitted pairs refer to events of the target list\<close>

lemma groupBySport_range:
  "groupBySport ps m = Inr m' \<Longrightarrow> (\<forall>k b. m k = Some b \<longrightarrow> (\<forall>j\<in>set b. j < n)) \<Longrightarrow>
   (\<forall>(j, t)\<in>set ps. j < n) \<Longrightarrow> m' k = Some b \<Longrightarrow> j \<in> set b \<Longrightarrow> j < n"
proof (induction ps arbitrary: m)
  case Nil
  then show ?case by auto
next
  case (Cons p ps)
  obtain i t where p: "p = (i, t)" by (cases p)
  let ?m1 = "m(sportKey t \<mapsto> (case m (sportKey t) of None \<Rightarrow> [] | Some b \<Rightarrow> b) @ [i])"
  from Cons.prems(1) p have rec: "groupBySport ps ?m1 = Inr m'"
    by (auto simp: Let_def split: if_splits)
  have i: "i < n" using Cons.prems(3) p by simp
  have inv: "\<forall>k b. ?m1 k = Some b \<longrightarrow> (\<forall>j\<in>set b. j < n)"
  proof (intro allI impI ballI)
    fix k b j assume kb: "?m1 k = Some b" and j: "j \<in> set b"
    show "j < n"
    proof (cases "k = sportKey t")
      case True
      with kb have b: "b = (case m (sportKey t) of None \<Rightarrow> [] | Some b \<Rightarrow> b) @ [i]" by simp
      show ?thesis
      proof (cases "m (sportKey t)")
        case None
        with b j i show ?thesis by simp
      next
        case (Some b0)
        with b j i Cons.prems(2) show ?thesis by auto
      qed
    next
      case False
      with kb have "m k = Some b" by simp
      with j Cons.prems(2) show ?thesis by blast
    qed
  qed
  show ?case
    by (rule Cons.IH[OF rec inv _ Cons.prems(4,5)]) (use Cons.prems(3) in auto)
qed

lemma hydrateStep_range:
  assumes "hydrateStep tbs e st = Inr st'"
    and "\<forall>k b. tbs k = Some b \<longrightarrow> (\<forall>j\<in>set b. j < length (targets st))"
    and "\<forall>p\<in>set (matchedPairs st). eventB p < length (targets st)"
  shows "length (targets st') = length (targets st) \<and>
     (\<forall>p\<in>set (matchedPairs st'). eventB p < length (targets st'))"
proof (cases "st' = st")
  case True
  with assms(3) show ?thesis by simp
next
  case False
  with assms(1) obtain B r i where B: "tbs (sportKey e) = Some B" and i: "i < length B"
    and st': "st' = acceptMatch e (B ! i) r st"
    by (auto simp: hydrateStep_def Let_def split: if_splits option.splits)
  from B i assms(2) have "B ! i < length (targets st)" by (meson nth_mem)
  with assms(3) show ?thesis by (auto simp: st' acceptMatch_def)
qed

lemma hydrateLoop_range:
  "hydrateLoop tbs es st = Inr st' \<Longrightarrow>
   \<forall>k b. tbs k = Some b \<longrightarrow> (\<forall>j\<in>set b. j < length (targets st)) \<Longrightarrow>
   \<forall>p\<in>set (matchedPairs st). eventB p < length (targets st) \<Longrightarrow>
   length (targets st') = length (targets st) \<and>
     (\<forall>p\<in>set (matchedPairs st'). eventB p < length (targets st'))"
proof (induction es arbitrary: st)
  case Nil
  then show ?case by simp
next
  case (Cons e es)
  from Cons.prems(1) obtain st1 where s1: "hydrateStep tbs e st = Inr st1"
    and rec: "hydrateLoop tbs es st1 = Inr st'"
    by (auto split: sum.splits)
  from hydrateStep_range[OF s1 Cons.prems(2) Cons.prems(3)]
  have l: "length (targets st1) = length (targets st)"
    and r: "\<forall>p\<in>set (matchedPairs st1). eventB p < length (targets st1)" by auto
  have rng: "\<forall>k b. tbs k = Some b \<longrightarrow> (\<forall>j\<in>set b. j < length (targets st1))"
    using Cons.prems(2) l by simp
  from Cons.IH[OF rec rng r] l show ?case by auto
qed

text \<open>Every emitted pair refers to an event of the target list.\<close>

lemma hydrate_pairs_in_range:
  assumes "hydrateDictionaryByCompositeKey azuroEvents targetEvents = Inr h"
  shows "length (targets h) = length targetEvents \<and>
     (\<forall>p\<in>set (matchedPairs h). eventB p < length (targets h))"
proof -
  from assms obtain tbs where g: "groupBySport (enumerate 0 targetEvents) Map.empty = Inr tbs"
    and l: "hydrateLoop tbs azuroEvents \<lparr>targets = targetEvents, matchedPairs = []\<rparr> = Inr h"
    by (auto simp: hydrateDictionaryByCompositeKey_def split: sum.splits)
  have rng: "\<And>k b j. tbs k = Some b \<Longrightarrow> j \<in> set b \<Longrightarrow> j < length targetEvents"
    by (rule groupBySport_range[OF g]) (auto simp: in_set_enumerate_eq)
  then have rng': "\<forall>k b. tbs k = Some b \<longrightarrow>
      (\<forall>j\<in>set b. j < length (targets \<lparr>targets = targetEvents, matchedPairs = []\<rparr>))"
    by auto
  from hydrateLoop_range[OF l rng'] show ?thesis by auto
qed

section \<open>Properties of the discovery cycle\<close>

subsection \<open>The dedup set\<close>

lemma processPairs_mono:
  "processPairs rnd env gp ga store k pairs ps = (err, ps') \<Longrightarrow> bets ps \<subseteq> bets ps'"
proof (induction pairs arbitrary: k ps)
  case Nil
  then show ?case by simp
next
  case (Cons pair rest)
  show ?case
    using Cons.prems
    by (auto simp: Let_def quoted_def split: if_splits sum.splits dest!: Cons.IH)
qed

lemma processPairs_no_execute:
  "processPairs rnd env gp ga store k pairs ps = (err, ps') \<Longrightarrow>
   betKeyOf a b \<in> bets ps \<Longrightarrow> Execute a b \<in> set (calls ps') \<Longrightarrow> Execute a b \<in> set (calls ps)"
proof (induction pairs arbitrary: k ps)
  case Nil
  then show ?case by simp
next
  case (Cons pair rest)
  show ?case
    using Cons.prems
    by (auto simp: Let_def quoted_def split: if_splits sum.splits dest!: Cons.IH)
qed


lemma processPairs_keeps_bets:
  "x \<in> bets ps \<Longrightarrow> x \<in> bets (snd (processPairs rnd env gp ga store k pairs ps))"
  using processPairs_mono[of rnd env gp ga store k pairs ps]
  by (cases "processPairs rnd env gp ga store k pairs ps") auto

lemma processPairs_execute_was_there:
  "Execute a b \<in> set (calls (snd (processPairs rnd env gp ga store k pairs ps))) \<Longrightarrow>
   betKeyOf a b \<in> bets ps \<Longrightarrow> Execute a b \<in> set (calls ps)"
  using processPairs_no_execute[of rnd env gp ga store k pairs ps _ _ a b]
  by (cases "processPairs rnd env gp ga store k pairs ps") auto

lemma discoveryBody_dedup:
  "placedBets s \<subseteq> placedBets (fst (discoveryBody rnd env s)) \<and>
   (betKeyOf a b \<in> placedBets s \<longrightarrow> Execute a b \<notin> set (snd (discoveryBody rnd env s)))"
  unfolding discoveryBody_def Let_def
  by (auto split: sum.splits intro!: processPairs_keeps_bets
      dest!: processPairs_execute_was_there)

lemma runDiscoveryCycle_dedup:
  "placedBets s \<subseteq> placedBets (fst (runDiscoveryCycle rnd env s)) \<and>
   (betKeyOf a b \<in> placedBets s \<longrightarrow> Execute a b \<notin> set (snd (runDiscoveryCycle rnd env s)))"
  using discoveryBody_dedup[of "s\<lparr>isDiscoveryRunning := True\<rparr>" rnd env a b]
  by (simp add: runDiscoveryCycle_def Let_def)

text \<open>
  Claim C8. The dedup key of a pair is \<open>betKeyOf idA idB\<close>, the two venues' event
  identifiers joined by an underscore. Once it is in \<open>placedBets\<close>, it is in
  \<open>placedBets\<close> after any number of further cycles, whatever the collaborators answer
  in them, and none of these cycles calls the execution engine for that pair.
\<close>

theorem C8_marked_pair_never_executed_again:
  assumes "betKeyOf idA idB \<in> placedBets s"
  shows "betKeyOf idA idB \<in> placedBets (fst (runCycles rnd envs s)) \<and>
     Execute idA idB \<notin> set (snd (runCycles rnd envs s))"
  using assms
proof (induction envs arbitrary: s)
  case Nil
  then show ?case by simp
next
  case (Cons env envs)
  from runDiscoveryCycle_dedup[of s rnd env idA idB] Cons.prems
  have 1: "betKeyOf idA idB \<in> placedBets (fst (runDiscoveryCycle rnd env s))"
    and 2: "Execute idA idB \<notin> set (snd (runDiscoveryCycle rnd env s))"
    by auto
  from Cons.IH[OF 1] 2 show ?case by (simp add: Let_def)
qed

text \<open>The first cycle executes the pair and marks it; two more cycles with the same
  listings do not execute it again.\<close>

lemma first_cycle_executes_and_marks:
  "runDiscoveryCycle Fin exEnv exIdle =
     (\<lparr>isDiscoveryRunning = False, previousAzuroIds = {''a1''}, previousOvertimeIds = {''t1''},
       placedBets = {''a1_t1''}\<rparr>,
      [FetchActiveEvents, Hydrate, GetGasCost, Calculate ''a1'' ''t1'', Execute ''a1'' ''t1''])"
  by code_simp

theorem C8_marked_pair_never_executed_again_witness:
  "Execute ''a1'' ''t1'' \<in> set (snd (runDiscoveryCycle Fin exEnv exIdle)) \<and>
   betKeyOf ''a1'' ''t1'' \<in> placedBets (fst (runDiscoveryCycle Fin exEnv exIdle)) \<and>
   betKeyOf ''a1'' ''t1'' \<in>
     placedBets (fst (runCycles Fin [exEnv, exEnv] (fst (runDiscoveryCycle Fin exEnv exIdle)))) \<and>
   Execute ''a1'' ''t1'' \<notin>
     set (snd (runCycles Fin [exEnv, exEnv] (fst (runDiscoveryCycle Fin exEnv exIdle))))"
proof -
  have e: "Execute ''a1'' ''t1'' \<in> set (snd (runDiscoveryCycle Fin exEnv exIdle))"
    by (simp add: first_cycle_executes_and_marks)
  have h: "betKeyOf ''a1'' ''t1'' \<in> placedBets (fst (runDiscoveryCycle Fin exEnv exIdle))"
    by (simp add: first_cycle_executes_and_marks betKeyOf_def)
  from C8_marked_pair_never_executed_again[OF h, of Fin "[exEnv, exEnv]"] e h
  show ?thesis by blast
qed

subsection \<open>The reentrancy guard\<close>

text \<open>
  Claim C9. A cycle request that finds \<open>isDiscoveryRunning\<close> set returns at once: no
  collaborator is called and the coordinator's state (dedup set, identifier snapshots,
  flag) is the same. A request that finds the flag clear runs the cycle and leaves the
  flag clear, whatever the collaborators answer, exceptions included, because the
  \<open>finally\<close> block resets it.
\<close>

theorem C9_reentrancy_and_cleanup:
  "(isDiscoveryRunning s \<longrightarrow> runDiscoveryCycle rnd env s = (s, [])) \<and>
   (\<not> isDiscoveryRunning s \<longrightarrow> \<not> isDiscoveryRunning (fst (runDiscoveryCycle rnd env s)))"
  by (simp add: runDiscoveryCycle_def Let_def)

theorem C9_reentrancy_and_cleanup_witness:
  "runDiscoveryCycle Fin exEnv exRunning = (exRunning, []) \<and>
   \<not> isDiscoveryRunning (fst (runDiscoveryCycle Fin exEnv exIdle)) \<and>
   \<not> isDiscoveryRunning
       (fst (runDiscoveryCycle Fin (exEnv\<lparr>fetchAzuro := Inl ThrownError\<rparr>) exIdle))"
  using C9_reentrancy_and_cleanup [of exRunning Fin exEnv]
    C9_reentrancy_and_cleanup [of exIdle Fin exEnv]
    C9_reentrancy_and_cleanup [of exIdle Fin "exEnv\<lparr>fetchAzuro := Inl ThrownError\<rparr>"]
  by simp

end
